theory Spec2Isabelle
  imports Complex_Main "HOL-Library.Char_ord" "HOL-Library.List_Lexorder" "HOL-Library.AList"
begin

section \<open>File names: the parts of pathlib the batch tagger uses\<close>

text \<open>
  File names are strings of ASCII characters, on which \<open>str.lower\<close> maps the letters
  \<open>A\<close> .. \<open>Z\<close> to \<open>a\<close> .. \<open>z\<close> and leaves every other character alone. What
  \<open>str.lower\<close> does to characters beyond ASCII is not modelled; the statement about
  the folding of case is made for ASCII names.
\<close>

definition lower_char :: "char \<Rightarrow> char" where
  "lower_char c =
     (case map_of (zip ''ABCDEFGHIJKLMNOPQRSTUVWXYZ'' ''abcdefghijklmnopqrstuvwxyz'') c of
        Some d \<Rightarrow> d
      | None \<Rightarrow> c)"

definition lower :: "string \<Rightarrow> string" where
  "lower s = map lower_char s"

text \<open>\<open>str.rfind\<close>: the index of the last occurrence, \<open>None\<close> for Python's \<open>-1\<close>.\<close>

fun rfind :: "char \<Rightarrow> string \<Rightarrow> nat option" where
  "rfind c [] = None"
| "rfind c (x # xs) =
     (case rfind c xs of
        Some i \<Rightarrow> Some (Suc i)
      | None \<Rightarrow> if x = c then Some 0 else None)"

text \<open>
  \<open>PurePath.suffix\<close> and \<open>PurePath.stem\<close> of a final path component:
  with \<open>i = name.rfind('.')\<close>, the suffix is \<open>name[i:]\<close> and the stem \<open>name[:i]\<close>
  when \<open>0 < i < len(name) - 1\<close>; otherwise the suffix is empty and the stem is the name.
\<close>

definition suffix_py :: "string \<Rightarrow> string" where
  "suffix_py name =
     (case rfind (CHR ''.'') name of
        Some i \<Rightarrow> if 0 < i \<and> i < length name - 1 then drop i name else []
      | None \<Rightarrow> [])"

definition stem :: "string \<Rightarrow> string" where
  "stem name =
     (case rfind (CHR ''.'') name of
        Some i \<Rightarrow> if 0 < i \<and> i < length name - 1 then take i name else name
      | None \<Rightarrow> name)"

section \<open>The file system\<close>

text \<open>
  A directory is its listing, in the order the operating system hands the entries out:
  pairs of a name and what the entry is. A subdirectory carries the names of its own
  entries, which is as deep as \<open>shutil.move\<close> looks. The store maps the path of a
  directory to its listing; a path that is not a directory maps to \<open>None\<close>.
\<close>

datatype kind = RegularFile | Directory "string list" | Other

type_synonym listing = "(string \<times> kind) list"

type_synonym store = "string \<Rightarrow> listing option"

datatype exn = FileNotFoundError | JSONDecodeError | PermissionError | ShutilError
  | TaggerError | ZeroDivisionError

text \<open>\<open>Path.is_file\<close> of the entry of a listing.\<close>

fun is_file :: "kind \<Rightarrow> bool" where
  "is_file RegularFile = True"
| "is_file (Directory cs) = False"
| "is_file Other = False"

section \<open>BatchVideoTagger\<close>

record batch_video_tagger =
  input_dir :: string
  processed_dir :: string
  output_dir :: string

definition video_extensions :: "string list" where
  "video_extensions =
     [''.mp4'', ''.avi'', ''.mov'', ''.mkv'', ''.wmv'', ''.flv'', ''.webm'', ''.m4v'']"

text \<open>
  \<open>get_video_files\<close>: \<open>iterdir\<close> raises when the input directory is not there;
  the paths of one directory sort by their names.
\<close>

definition eligible :: "string \<times> kind \<Rightarrow> bool" where
  "eligible e = (is_file (snd e) \<and> lower (suffix_py (fst e)) \<in> set video_extensions)"

definition get_video_files :: "batch_video_tagger \<Rightarrow> store \<Rightarrow> exn + string list" where
  "get_video_files t fs =
     (case fs (input_dir t) of
        None \<Rightarrow> Inl FileNotFoundError
      | Some d \<Rightarrow> Inr (sort (map fst (filter eligible d))))"


subsection \<open>What a run reads from outside, and what it prints\<close>

text \<open>
  The metadata file is read and never written by the batch, so it is kept apart from
  the directories: a path holds no file, a file that is not JSON, or a template.
\<close>

type_synonym metadata = "(string \<times> string) list"

datatype metadata_file = Missing | Unparsable | Template metadata

text \<open>The verdict of the external tagging tool on one source file.\<close>

datatype tag_result = Tagged | Rejected | Crashed

text \<open>
  What the copy-and-delete that \<open>shutil.move\<close> falls back on comes to, when the
  operating system has refused the rename: the copy fails with nothing written, or a copy
  is in place and what follows fails (the rest of the copy, or deleting the original), or
  both steps go through.
\<close>

datatype fallback = NothingCopied | CopyLeftBehind | CopiedAndUnlinked

record env =
  metadata_at :: "string \<Rightarrow> metadata_file"
  derive_title :: "string \<Rightarrow> string"
  apply_tags :: "string \<Rightarrow> tag_result"
  move_denied :: "string \<Rightarrow> bool"
  fallback :: "string \<Rightarrow> fallback"

datatype event =
    Processing string
  | MetadataNotFound string
  | AddingMetadata string
  | Successfully string
  | OriginalMovedTo string string
  | TaggedSavedTo string string
  | MetadataAdded metadata
  | FailedToProcess string
  | ErrorProcessing string exn
  | NoVideoFiles string
  | Found "string list"
  | SummaryCounts nat nat nat
  | SuccessRate rat
  | FailedVideos "string list"

record world =
  fs :: store
  out :: "event list"

definition say :: "event \<Rightarrow> world \<Rightarrow> world" where
  "say ev w = w\<lparr>out := out w @ [ev]\<rparr>"

subsection \<open>SimpleVideoTagger\<close>

text \<open>
  Modelled from the spec: the class \<open>SimpleVideoTagger\<close> (module
  \<open>simple_video_tagger\<close>) is not among the source files. Its constructor follows
  \<open>VideoTagger.__init__\<close>, which raises when the video is not there.
\<close>

definition new_tagger :: "store \<Rightarrow> string \<Rightarrow> string \<Rightarrow> exn + unit" where
  "new_tagger s dir name =
     (case s dir of
        None \<Rightarrow> Inl FileNotFoundError
      | Some d \<Rightarrow> (case map_of d name of None \<Rightarrow> Inl FileNotFoundError | Some k \<Rightarrow> Inr ()))"

text \<open>
  Modelled from the spec: \<open>load_metadata_with_auto_title\<close> of the missing class is the
  Metadata Composer. It starts from a copy of the template; if the copy has no
  \<open>title\<close> entry it derives one from the base name and inserts it. The derivation is
  implementation-defined, so it is the parameter \<open>derive_title\<close>.
\<close>

definition load_metadata_with_auto_title :: "env \<Rightarrow> string \<Rightarrow> metadata \<Rightarrow> metadata" where
  "load_metadata_with_auto_title e base template =
     (let m = template
      in if map_of m ''title'' = None then m @ [(''title'', derive_title e base)] else m)"

text \<open>
  Modelled from the spec: \<open>write_metadata\<close> of the missing class is the Media Tag
  Applicator, which yields a new artifact at the target path or fails. As in
  \<open>VideoTagger.write_metadata\<close> it overwrites an existing output file, returns
  \<open>False\<close> when the tool fails, and lets any other exception through. The tool cannot
  write into a directory that is not there, nor over a directory.
\<close>

definition write_metadata ::
  "env \<Rightarrow> world \<Rightarrow> string \<Rightarrow> metadata \<Rightarrow> string \<Rightarrow> string \<Rightarrow> (exn + bool) \<times> world" where
  "write_metadata e w name md odir oname =
     (case apply_tags e name of
        Crashed \<Rightarrow> (Inl TaggerError, w)
      | Rejected \<Rightarrow> (Inr False, w)
      | Tagged \<Rightarrow>
          (case fs w odir of
             None \<Rightarrow> (Inr False, w)
           | Some d \<Rightarrow>
               (case map_of d oname of
                  Some (Directory cs) \<Rightarrow> (Inr False, w)
                | _ \<Rightarrow> (Inr True, w\<lparr>fs := (fs w)(odir \<mapsto> AList.update oname RegularFile d)\<rparr>))))"

subsection \<open>shutil.move\<close>

definition upd_dir :: "store \<Rightarrow> string \<Rightarrow> (listing \<Rightarrow> listing) \<Rightarrow> store" where
  "upd_dir s p f = (case s p of None \<Rightarrow> s | Some d \<Rightarrow> s(p \<mapsto> f d))"

text \<open>
  \<open>shutil.move(src, dst)\<close> with \<open>src = sdir/name\<close> and \<open>dst = ddir/name\<close>. When
  \<open>dst\<close> is an existing directory the source goes inside it, unless an entry of that
  name is already there, which raises. Otherwise the source goes onto \<open>dst\<close>,
  replacing a file that is there; renaming a path onto itself changes nothing.

  The move is \<open>os.rename\<close>; when the operating system refuses that
  (\<open>move_denied\<close>), \<open>shutil.move\<close> copies the source to the destination and then
  deletes the source. An exception leaves the store as it is at that moment: on the left
  of the result, with the exception.
\<close>

definition rename_or_copy ::
  "env \<Rightarrow> store \<Rightarrow> string \<Rightarrow> string \<Rightarrow> string \<Rightarrow> kind \<Rightarrow> (exn \<times> store) + store" where
  "rename_or_copy e s sdir name ddir k =
     (if \<not> move_denied e name
      then Inr (upd_dir (upd_dir s sdir (AList.delete name)) ddir (AList.update name k))
      else
        (case fallback e name of
           NothingCopied \<Rightarrow> Inl (PermissionError, s)
         | CopyLeftBehind \<Rightarrow> Inl (PermissionError, upd_dir s ddir (AList.update name k))
         | CopiedAndUnlinked \<Rightarrow>
             Inr (upd_dir (upd_dir s sdir (AList.delete name)) ddir (AList.update name k))))"

definition shutil_move ::
  "env \<Rightarrow> store \<Rightarrow> string \<Rightarrow> string \<Rightarrow> string \<Rightarrow> (exn \<times> store) + store" where
  "shutil_move e s sdir name ddir =
     (case s sdir of
        None \<Rightarrow> Inl (FileNotFoundError, s)
      | Some sd \<Rightarrow>
          (case map_of sd name of
             None \<Rightarrow> Inl (FileNotFoundError, s)
           | Some k \<Rightarrow>
               (case s ddir of
                  None \<Rightarrow> Inl (FileNotFoundError, s)
                | Some dd \<Rightarrow>
                    if sdir = ddir
                    then (if move_denied e name then Inl (ShutilError, s) else Inr s)
                    else
                      (case map_of dd name of
                         Some (Directory cs) \<Rightarrow>
                           if name \<in> set cs then Inl (ShutilError, s)
                           else rename_or_copy e s sdir name ddir (Directory (name # cs))
                       | _ \<Rightarrow> rename_or_copy e s sdir name ddir k))))"

subsection \<open>process_single_video\<close>

text \<open>The body of the \<open>try\<close>: the value returned or the exception raised, and the world then.\<close>

definition attempt ::
  "batch_video_tagger \<Rightarrow> env \<Rightarrow> string \<Rightarrow> string \<Rightarrow> world \<Rightarrow> (exn + bool) \<times> world" where
  "attempt t e metadata_file name w0 =
     (let w1 = say (Processing name) w0
      in case new_tagger (fs w1) (input_dir t) name of
           Inl x \<Rightarrow> (Inl x, w1)
         | Inr tagger \<Rightarrow>
             (case metadata_at e metadata_file of
                Missing \<Rightarrow> (Inr False, say (MetadataNotFound metadata_file) w1)
              | Unparsable \<Rightarrow> (Inl JSONDecodeError, w1)
              | Template tpl \<Rightarrow>
                  (let md = load_metadata_with_auto_title e (stem name) tpl;
                       output_filename = stem name @ ''_tagged'' @ suffix_py name;
                       w2 = say (AddingMetadata output_filename) w1
                   in case write_metadata e w2 name md (output_dir t) output_filename of
                        (Inl x, w3) \<Rightarrow> (Inl x, w3)
                      | (Inr success, w3) \<Rightarrow>
                          if success then
                            (case shutil_move e (fs w3) (input_dir t) name (processed_dir t) of
                               Inl (x, s) \<Rightarrow> (Inl x, w3\<lparr>fs := s\<rparr>)
                             | Inr s \<Rightarrow>
                                 (Inr True,
                                  say (MetadataAdded md)
                                    (say (TaggedSavedTo (output_dir t) output_filename)
                                      (say (OriginalMovedTo (processed_dir t) name)
                                        (say (Successfully name) (w3\<lparr>fs := s\<rparr>))))))
                          else (Inr False, say (FailedToProcess name) w3))))"

definition process_single_video ::
  "batch_video_tagger \<Rightarrow> env \<Rightarrow> string \<Rightarrow> string \<Rightarrow> world \<Rightarrow> bool \<times> world" where
  "process_single_video t e metadata_file name w =
     (case attempt t e metadata_file name w of
        (Inl x, w') \<Rightarrow> (False, say (ErrorProcessing name x) w')
      | (Inr b, w') \<Rightarrow> (b, w'))"

subsection \<open>process_all_videos\<close>

record progress =
  world_of :: world
  results :: "(string \<times> bool) list"
  successful :: nat
  failed :: nat

text \<open>The body of the loop over the discovered files.\<close>

definition loop_body ::
  "batch_video_tagger \<Rightarrow> env \<Rightarrow> string \<Rightarrow> string \<Rightarrow> progress \<Rightarrow> progress" where
  "loop_body t e metadata_file name r =
     (case process_single_video t e metadata_file name (world_of r) of
        (success, w') \<Rightarrow>
          \<lparr>world_of = w',
           results = AList.update name success (results r),
           successful = (if success then successful r + 1 else successful r),
           failed = (if success then failed r else failed r + 1)\<rparr>)"

primrec process_loop ::
  "batch_video_tagger \<Rightarrow> env \<Rightarrow> string \<Rightarrow> string list \<Rightarrow> progress \<Rightarrow> progress" where
  "process_loop t e metadata_file [] r = r"
| "process_loop t e metadata_file (v # vs) r =
     process_loop t e metadata_file vs (loop_body t e metadata_file v r)"

text \<open>Python's \<open>/\<close> on integers raises on a zero divisor.\<close>

definition py_truediv :: "nat \<Rightarrow> nat \<Rightarrow> exn + rat" where
  "py_truediv a b = (if b = 0 then Inl ZeroDivisionError else Inr (of_nat a / of_nat b))"

definition process_all_videos ::
  "batch_video_tagger \<Rightarrow> env \<Rightarrow> string \<Rightarrow> world \<Rightarrow> (exn + (string \<times> bool) list) \<times> world" where
  "process_all_videos t e metadata_file w =
     (case get_video_files t (fs w) of
        Inl x \<Rightarrow> (Inl x, w)
      | Inr video_files \<Rightarrow>
          if video_files = [] then (Inr [], say (NoVideoFiles (input_dir t)) w)
          else
            (let r = process_loop t e metadata_file video_files
                       \<lparr>world_of = say (Found video_files) w, results = [],
                        successful = 0, failed = 0\<rparr>;
                 w1 = say (SummaryCounts (length video_files) (successful r) (failed r))
                        (world_of r)
             in case py_truediv (successful r) (length video_files) of
                  Inl x \<Rightarrow> (Inl x, w1)
                | Inr q \<Rightarrow>
                    (let w2 = say (SuccessRate (q * 100)) w1;
                         w3 = (if failed r > 0
                               then say (FailedVideos
                                          (map fst (filter (\<lambda>p. \<not> snd p) (results r)))) w2
                               else w2)
                     in (Inr (results r), w3))))"

subsection \<open>show_directory_status\<close>

text \<open>
  \<open>fnmatch\<close> for the patterns of this program, in which \<open>*\<close> is the only special
  character: \<open>*\<close> matches any run of characters, every other character itself.
  Matching is case-sensitive, as on POSIX.
\<close>

fun fnmatch :: "string \<Rightarrow> string \<Rightarrow> bool" where
  "fnmatch [] [] = True"
| "fnmatch [] (c # cs) = False"
| "fnmatch (p # ps) [] = (p = CHR ''*'' \<and> fnmatch ps [])"
| "fnmatch (p # ps) (c # cs) =
     (if p = CHR ''*'' then fnmatch ps (c # cs) \<or> fnmatch (p # ps) cs
      else p = c \<and> fnmatch ps cs)"

text \<open>
  \<open>Path.glob\<close> with a pattern of one component: the entries of the directory whose
  names match, files and directories alike; nothing when the directory is not there.
\<close>

definition glob :: "store \<Rightarrow> string \<Rightarrow> string \<Rightarrow> string list" where
  "glob s dir pat =
     (case s dir of None \<Rightarrow> [] | Some d \<Rightarrow> filter (fnmatch pat) (map fst d))"

text \<open>What the status prints: a count and names per directory, and how many more there are.\<close>

record directory_report =
  input_videos :: "string list"
  processed_count :: nat
  processed_shown :: "string list"
  processed_more :: "nat option"
  output_count :: nat
  output_shown :: "string list"
  output_more :: "nat option"

definition processed_files :: "batch_video_tagger \<Rightarrow> store \<Rightarrow> string list" where
  "processed_files t s =
     glob s (processed_dir t) ''*.mp4'' @ glob s (processed_dir t) ''*.avi''
       @ glob s (processed_dir t) ''*.mov''"

definition output_files :: "batch_video_tagger \<Rightarrow> store \<Rightarrow> string list" where
  "output_files t s = glob s (output_dir t) ''*_tagged.*''"

definition more :: "string list \<Rightarrow> nat option" where
  "more xs = (if length xs > 5 then Some (length xs - 5) else None)"

definition show_directory_status ::
  "batch_video_tagger \<Rightarrow> store \<Rightarrow> (exn + directory_report) \<times> store" where
  "show_directory_status t s =
     (case get_video_files t s of
        Inl x \<Rightarrow> (Inl x, s)
      | Inr vs \<Rightarrow>
          (Inr \<lparr>input_videos = vs,
                processed_count = length (processed_files t s),
                processed_shown = take 5 (processed_files t s),
                processed_more = more (processed_files t s),
                output_count = length (output_files t s),
                output_shown = take 5 (output_files t s),
                output_more = more (output_files t s)\<rparr>, s))"

section \<open>Auxiliary notions for the statements\<close>





text \<open>\<open>str.endswith\<close>.\<close>

definition ends_with :: "string \<Rightarrow> string \<Rightarrow> bool" where
  "ends_with post n = (length post \<le> length n \<and> drop (length n - length post) n = post)"

text \<open>The files a run has started on, read off what it printed.\<close>

fun attempts :: "event list \<Rightarrow> string list" where
  "attempts [] = []"
| "attempts (Processing v # evs) = v # attempts evs"
| "attempts (ev # evs) = attempts evs"

text \<open>The error reports among what a run printed.\<close>

fun error_reports :: "event list \<Rightarrow> event list" where
  "error_reports [] = []"
| "error_reports (MetadataNotFound p # evs) = MetadataNotFound p # error_reports evs"
| "error_reports (ErrorProcessing v x # evs) = ErrorProcessing v x # error_reports evs"
| "error_reports (ev # evs) = error_reports evs"

text \<open>The name of the tagged artifact of a video.\<close>

definition output_filename :: "string \<Rightarrow> string" where
  "output_filename name = stem name @ ''_tagged'' @ suffix_py name"

text \<open>
  What stops \<open>shutil.move\<close> at a destination directory: the entry of that name is a
  directory which has an entry of that name itself.
\<close>

definition blocked :: "listing \<Rightarrow> string \<Rightarrow> bool" where
  "blocked pd v = (case map_of pd v of Some (Directory cs) \<Rightarrow> v \<in> set cs | _ \<Rightarrow> False)"

text \<open>The entry of that name is a directory.\<close>

definition is_dir_at :: "listing \<Rightarrow> string \<Rightarrow> bool" where
  "is_dir_at od n = (case map_of od n of Some (Directory cs) \<Rightarrow> True | _ \<Rightarrow> False)"

section \<open>A small installation, for concrete runs\<close>

definition ex_tagger :: batch_video_tagger where
  "ex_tagger = \<lparr>input_dir = ''input'', processed_dir = ''processed'', output_dir = ''output''\<rparr>"

definition ex_env :: env where
  "ex_env =
     \<lparr>metadata_at = (\<lambda>p. if p = ''m.json'' then Template [(''artist'', ''X'')]
                          else if p = ''bad.json'' then Unparsable else Missing),
      derive_title = (\<lambda>b. b),
      apply_tags = (\<lambda>n. if n = ''b.mov'' then Rejected else Tagged),
      move_denied = (\<lambda>n. n = ''c.avi''),
      fallback = (\<lambda>n. CopyLeftBehind)\<rparr>"

definition ex_store :: store where
  "ex_store =
     [''input'' \<mapsto> [(''b.mov'', RegularFile), (''notes.txt'', RegularFile),
                   (''a.mp4'', RegularFile), (''clips.mp4'', Directory [])],
      ''processed'' \<mapsto> [(''old.MP4'', RegularFile), (''old.mkv'', RegularFile),
                       (''old.mov'', RegularFile)],
      ''output'' \<mapsto> []]"

definition ex_world :: world where
  "ex_world = \<lparr>fs = ex_store, out = []\<rparr>"

definition one_video_world :: world where
  "one_video_world =
     \<lparr>fs = [''input'' \<mapsto> [(''notes.txt'', RegularFile), (''a.mp4'', RegularFile)],
            ''processed'' \<mapsto> [], ''output'' \<mapsto> []],
      out = []\<rparr>"

definition no_input_store :: store where
  "no_input_store = [''processed'' \<mapsto> [(''old.mov'', RegularFile)], ''output'' \<mapsto> []]"

definition only_input_store :: store where
  "only_input_store = [''input'' \<mapsto> [(''a.mp4'', RegularFile)]]"

definition mixed_case_store :: store where
  "mixed_case_store =
     [''input'' \<mapsto> [(''b.MkV'', RegularFile), (''notes.txt'', RegularFile),
                   (''.mp4'', RegularFile), (''a.mp4'', RegularFile),
                   (''clips.mp4'', Directory [''x.mp4'']), (''Z.MOV'', RegularFile),
                   (''a.b.WebM'', RegularFile), (''pipe.avi'', Other)]]"

text \<open>A Processed directory that already has a directory of the video's name.\<close>

definition taken_world :: world where
  "taken_world =
     \<lparr>fs = [''input'' \<mapsto> [(''a.mp4'', RegularFile)],
            ''processed'' \<mapsto> [(''a.mp4'', Directory [])], ''output'' \<mapsto> []],
      out = []\<rparr>"

definition ex_progress :: progress where
  "ex_progress = \<lparr>world_of = ex_world, results = [], successful = 0, failed = 0\<rparr>"

text \<open>A video the operating system will not let go of: \<open>ex_env\<close> denies the move of \<open>c.avi\<close>.\<close>

definition denied_progress :: progress where
  "denied_progress =
     \<lparr>world_of = \<lparr>fs = [''input'' \<mapsto> [(''c.avi'', RegularFile)], ''processed'' \<mapsto> [],
                           ''output'' \<mapsto> []],
                     out = []\<rparr>,
      results = [], successful = 0, failed = 0\<rparr>"

definition three_video_world :: world where
  "three_video_world =
     \<lparr>fs = [''input'' \<mapsto> [(''z.mkv'', RegularFile), (''b.mov'', RegularFile),
                           (''a.mp4'', RegularFile)],
            ''processed'' \<mapsto> [(''a.mp4'', Directory [])],
            ''output'' \<mapsto> [(''z_tagged.mkv'', RegularFile)]],
      out = []\<rparr>"

lemmas eval_defs = process_all_videos_def get_video_files_def eligible_def lower_def
  lower_char_def suffix_py_def stem_def video_extensions_def loop_body_def
  process_single_video_def attempt_def new_tagger_def write_metadata_def shutil_move_def
  rename_or_copy_def
  upd_dir_def load_metadata_with_auto_title_def py_truediv_def say_def Let_def
  show_directory_status_def processed_files_def output_files_def glob_def more_def
  ends_with_def output_filename_def blocked_def is_dir_at_def
  ex_tagger_def ex_env_def ex_store_def ex_world_def one_video_world_def
  no_input_store_def only_input_store_def ex_progress_def denied_progress_def mixed_case_store_def taken_world_def
  three_video_world_def

section \<open>Basic facts\<close>

lemma fs_say [simp]: "fs (say ev w) = fs w"
  by (simp add: say_def)

lemma out_say [simp]: "out (say ev w) = out w @ [ev]"
  by (simp add: say_def)


section \<open>File discovery\<close>












section \<open>The run summary\<close>

text \<open>
  C9: process_all_videos never raises ZeroDivisionError. The success rate divides by the
  number of discovered files, and that division is reached only when the list of
  discovered files is not empty, because an empty list returns the empty mapping first.
\<close>

theorem process_all_videos_no_zero_division:
  "fst (process_all_videos t e metadata_file w) \<noteq> Inl ZeroDivisionError"
proof (cases "get_video_files t (fs w)")
  case (Inl x)
  then have "x = FileNotFoundError"
    by (auto simp: get_video_files_def split: option.splits)
  with Inl show ?thesis by (simp add: process_all_videos_def)
next
  case (Inr vs)
  show ?thesis
  proof (cases "vs = []")
    case True
    with Inr show ?thesis by (simp add: process_all_videos_def)
  next
    case False
    then have "0 < length vs" by simp
    then show ?thesis using Inr False
      by (simp add: process_all_videos_def py_truediv_def Let_def)
  qed
qed

theorem process_all_videos_no_zero_division_witness:
  "fst (process_all_videos ex_tagger ex_env ''m.json'' ex_world) \<noteq> Inl ZeroDivisionError
   \<and> fst (process_all_videos ex_tagger ex_env ''m.json'' ex_world)
       = Inr [(''a.mp4'', True), (''b.mov'', False)]
   \<and> SuccessRate 50 \<in> set (out (snd (process_all_videos ex_tagger ex_env ''m.json'' ex_world)))"
proof -
  have a: "fst (process_all_videos ex_tagger ex_env ''m.json'' ex_world)
       = Inr [(''a.mp4'', True), (''b.mov'', False)]"
    by (simp add: eval_defs)
  have b: "SuccessRate 50 \<in> set (out (snd (process_all_videos ex_tagger ex_env ''m.json'' ex_world)))"
    by (simp add: eval_defs)
  from process_all_videos_no_zero_division [of ex_tagger ex_env "''m.json''" ex_world] a b
  show ?thesis by simp
qed

section \<open>A run with nothing to do\<close>

text \<open>
  C8: a run over an input directory with no eligible file, be it empty from the start or
  emptied by a run before, starts on no item, returns the empty mapping and leaves every
  directory as it was; all it does is print that no video files were found.
\<close>

theorem process_all_videos_empty_input:
  assumes "fs w (input_dir t) = Some d" and "filter eligible d = []"
  shows "fst (process_all_videos t e metadata_file w) = Inr []
    \<and> fs (snd (process_all_videos t e metadata_file w)) = fs w
    \<and> attempts (out (snd (process_all_videos t e metadata_file w))) = attempts (out w)
    \<and> out (snd (process_all_videos t e metadata_file w)) = out w @ [NoVideoFiles (input_dir t)]"
proof -
  have "attempts (xs @ [NoVideoFiles p]) = attempts xs" for xs p
    by (induction xs rule: attempts.induct) simp_all
  then show ?thesis
    using assms by (simp add: process_all_videos_def get_video_files_def)
qed

theorem process_all_videos_empty_input_witness:
  "fst (process_all_videos ex_tagger ex_env ''m.json'' one_video_world) = Inr [(''a.mp4'', True)]
   \<and> fs (snd (process_all_videos ex_tagger ex_env ''m.json'' one_video_world)) (input_dir ex_tagger)
       = Some [(''notes.txt'', RegularFile)]
   \<and> filter eligible [(''notes.txt'', RegularFile)] = []
   \<and> fst (process_all_videos ex_tagger ex_env ''m.json''
            (snd (process_all_videos ex_tagger ex_env ''m.json'' one_video_world))) = Inr []
   \<and> fs (snd (process_all_videos ex_tagger ex_env ''m.json''
            (snd (process_all_videos ex_tagger ex_env ''m.json'' one_video_world))))
       = fs (snd (process_all_videos ex_tagger ex_env ''m.json'' one_video_world))"
proof -
  let ?w1 = "snd (process_all_videos ex_tagger ex_env ''m.json'' one_video_world)"
  have r: "fst (process_all_videos ex_tagger ex_env ''m.json'' one_video_world)
      = Inr [(''a.mp4'', True)]"
    by (simp add: eval_defs)
  have h1: "fs ?w1 (input_dir ex_tagger) = Some [(''notes.txt'', RegularFile)]"
    by (simp add: eval_defs)
  have h2: "filter eligible [(''notes.txt'', RegularFile)] = []"
    by (simp add: eval_defs)
  from process_all_videos_empty_input [where w = ?w1 and t = ex_tagger, OF h1 h2,
      of ex_env "''m.json''"] r h1 h2
  show ?thesis by simp
qed

section \<open>The status report\<close>

lemma fnmatch_literal:
  "CHR ''*'' \<notin> set lit \<Longrightarrow> fnmatch lit n = (n = lit)"
proof (induction lit arbitrary: n)
  case Nil
  then show ?case by (cases n) simp_all
next
  case (Cons p ps)
  then show ?case by (cases n) auto
qed

lemma fnmatch_star_literal:
  assumes "CHR ''*'' \<notin> set lit"
  shows "fnmatch (CHR ''*'' # lit) n = (\<exists>pre. n = pre @ lit)"
proof (induction n)
  case Nil
  then show ?case using assms by (auto simp: fnmatch_literal)
next
  case (Cons c cs)
  have "fnmatch (CHR ''*'' # lit) (c # cs) = (c # cs = lit \<or> (\<exists>pre. cs = pre @ lit))"
    using Cons assms by (simp add: fnmatch_literal)
  also have "\<dots> = (\<exists>pre. c # cs = pre @ lit)"
    by (auto simp: Cons_eq_append_conv)
  finally show ?case .
qed

lemma ends_with_iff: "ends_with post n = (\<exists>pre. n = pre @ post)"
proof
  assume "ends_with post n"
  then have "n = take (length n - length post) n @ post"
    by (metis append_take_drop_id ends_with_def)
  then show "\<exists>pre. n = pre @ post" ..
next
  assume "\<exists>pre. n = pre @ post"
  then show "ends_with post n" by (auto simp: ends_with_def)
qed

lemma glob_star_literal:
  "CHR ''*'' \<notin> set lit \<Longrightarrow>
   glob s dir (CHR ''*'' # lit) =
     (case s dir of None \<Rightarrow> [] | Some d \<Rightarrow> filter (ends_with lit) (map fst d))"
  by (auto simp: glob_def fnmatch_star_literal ends_with_iff split: option.splits intro: filter_cong)

lemma rfind_append_last:
  "c \<notin> set ys \<Longrightarrow> rfind c (xs @ c # ys) = Some (length xs)"
proof (induction xs)
  case Nil
  then have "rfind c ys = None" by (induction ys) (auto split: option.splits)
  then show ?case by simp
next
  case (Cons x xs)
  then show ?case by simp
qed

lemma suffix_py_of_ending:
  assumes "CHR ''.'' \<notin> set ext" and "ext \<noteq> []"
  shows "suffix_py (pre @ CHR ''.'' # ext) = (if pre = [] then [] else CHR ''.'' # ext)"
  using assms by (cases ext) (auto simp: suffix_py_def rfind_append_last)

lemma length_filter_disjoint:
  "(\<And>x. \<not> (P x \<and> Q x)) \<Longrightarrow>
   length (filter P xs) + length (filter Q xs) = length (filter (\<lambda>x. P x \<or> Q x) xs)"
  by (induction xs) auto

lemma processed_files_eq:
  "processed_files t s =
     (case s (processed_dir t) of None \<Rightarrow> []
      | Some d \<Rightarrow> filter (ends_with ''.mp4'') (map fst d) @ filter (ends_with ''.avi'') (map fst d)
           @ filter (ends_with ''.mov'') (map fst d))"
  by (simp add: processed_files_def glob_star_literal split: option.splits)

lemma length_processed_files:
  assumes "s (processed_dir t) = Some d"
  shows "length (processed_files t s) =
    length (filter (\<lambda>n. ends_with ''.mp4'' n \<or> ends_with ''.avi'' n \<or> ends_with ''.mov'' n)
      (map fst d))"
proof -
  let ?ns = "map fst d"
  have a: "length (filter (ends_with ''.avi'') ?ns) + length (filter (ends_with ''.mov'') ?ns)
      = length (filter (\<lambda>n. ends_with ''.avi'' n \<or> ends_with ''.mov'' n) ?ns)"
    by (rule length_filter_disjoint) (simp add: ends_with_def)
  have b: "length (filter (ends_with ''.mp4'') ?ns)
        + length (filter (\<lambda>n. ends_with ''.avi'' n \<or> ends_with ''.mov'' n) ?ns)
      = length (filter (\<lambda>n. ends_with ''.mp4'' n \<or> (ends_with ''.avi'' n \<or> ends_with ''.mov'' n)) ?ns)"
    by (rule length_filter_disjoint) (auto simp: ends_with_def)
  show ?thesis using assms a b
    by (simp add: processed_files_eq)
qed

lemma set_processed_files:
  assumes "s (processed_dir t) = Some d"
  shows "set (processed_files t s) =
    {n \<in> fst ` set d. ends_with ''.mp4'' n \<or> ends_with ''.avi'' n \<or> ends_with ''.mov'' n}"
  using assms by (auto simp: processed_files_eq)

lemma lower_glob_suffix_py:
  assumes "ends_with ''.mp4'' n \<or> ends_with ''.avi'' n \<or> ends_with ''.mov'' n"
  shows "suffix_py n \<in> {[], ''.mp4'', ''.avi'', ''.mov''}"
proof -
  from assms obtain pre ext where n: "n = pre @ CHR ''.'' # ext"
    and ext: "ext \<in> {''mp4'', ''avi'', ''mov''}"
    by (auto simp: ends_with_iff)
  from ext have "CHR ''.'' \<notin> set ext" "ext \<noteq> []" by auto
  then have "suffix_py n = (if pre = [] then [] else CHR ''.'' # ext)"
    unfolding n by (rule suffix_py_of_ending)
  with ext show ?thesis by auto
qed

lemma lower_Nil_not_video: "lower [] \<notin> set video_extensions"
  by (simp add: lower_def video_extensions_def)

text \<open>
  C10: the count and the names the status reports for the Processed directory are those
  of the entries matching one of the patterns \<open>*.mp4\<close>, \<open>*.avi\<close>, \<open>*.mov\<close> as
  written, in lower case. An entry that discovery would recognise as a video by its
  extension, but whose extension is not literally one of these three (mkv, wmv, flv,
  webm, m4v, or any spelling with an upper-case letter), is in neither the count nor the
  names.
\<close>

theorem status_processed_lowercase_globs:
  assumes "s (processed_dir t) = Some d" and "show_directory_status t s = (Inr r, s')"
  shows "processed_count r =
      length (filter (\<lambda>n. ends_with ''.mp4'' n \<or> ends_with ''.avi'' n \<or> ends_with ''.mov'' n)
        (map fst d))
    \<and> processed_shown r = take 5 (processed_files t s)
    \<and> set (processed_files t s) =
        {n \<in> fst ` set d. ends_with ''.mp4'' n \<or> ends_with ''.avi'' n \<or> ends_with ''.mov'' n}
    \<and> (\<forall>n. lower (suffix_py n) \<in> set video_extensions
            \<and> suffix_py n \<notin> {''.mp4'', ''.avi'', ''.mov''}
          \<longrightarrow> n \<notin> set (processed_files t s) \<and> n \<notin> set (processed_shown r))"
proof -
  from assms(2) have r: "processed_count r = length (processed_files t s)"
    "processed_shown r = take 5 (processed_files t s)"
    by (auto simp: show_directory_status_def split: sum.splits)
  have omitted: "n \<notin> set (processed_files t s)"
    if "lower (suffix_py n) \<in> set video_extensions"
      and "suffix_py n \<notin> {''.mp4'', ''.avi'', ''.mov''}" for n
  proof
    assume "n \<in> set (processed_files t s)"
    then have "suffix_py n \<in> {[], ''.mp4'', ''.avi'', ''.mov''}"
      using set_processed_files [where s = s and t = t, OF assms(1)] lower_glob_suffix_py by blast
    with that(2) have "suffix_py n = []" by blast
    with that(1) show False by (simp add: lower_Nil_not_video)
  qed
  have shown: "set (processed_shown r) \<subseteq> set (processed_files t s)"
    unfolding r by (rule set_take_subset)
  have 1: "processed_count r =
      length (filter (\<lambda>n. ends_with ''.mp4'' n \<or> ends_with ''.avi'' n \<or> ends_with ''.mov'' n)
        (map fst d))"
    using r(1) length_processed_files [where s = s and t = t, OF assms(1)] by simp
  have 4: "\<forall>n. lower (suffix_py n) \<in> set video_extensions
            \<and> suffix_py n \<notin> {''.mp4'', ''.avi'', ''.mov''}
          \<longrightarrow> n \<notin> set (processed_files t s) \<and> n \<notin> set (processed_shown r)"
    using omitted shown by blast
  from 1 r(2) set_processed_files [where s = s and t = t, OF assms(1)] 4
  show ?thesis by (intro conjI)
qed

theorem status_processed_lowercase_globs_witness:
  "ex_store (processed_dir ex_tagger) =
     Some [(''old.MP4'', RegularFile), (''old.mkv'', RegularFile), (''old.mov'', RegularFile)]
   \<and> fst (show_directory_status ex_tagger ex_store) =
       Inr \<lparr>input_videos = [''a.mp4'', ''b.mov''], processed_count = 1,
            processed_shown = [''old.mov''], processed_more = None,
            output_count = 0, output_shown = [], output_more = None\<rparr>
   \<and> ''old.MP4'' \<notin> set (processed_files ex_tagger ex_store)
   \<and> ''old.mkv'' \<notin> set (processed_files ex_tagger ex_store)"
proof -
  let ?r = "\<lparr>input_videos = [''a.mp4'', ''b.mov''], processed_count = 1,
            processed_shown = [''old.mov''], processed_more = None,
            output_count = 0, output_shown = [], output_more = None\<rparr>"
  have h1: "ex_store (processed_dir ex_tagger) =
     Some [(''old.MP4'', RegularFile), (''old.mkv'', RegularFile), (''old.mov'', RegularFile)]"
    by (simp add: eval_defs)
  have h2: "show_directory_status ex_tagger ex_store = (Inr ?r, ex_store)"
    by (simp add: eval_defs)
  have a: "lower (suffix_py ''old.MP4'') \<in> set video_extensions
      \<and> suffix_py ''old.MP4'' \<notin> {''.mp4'', ''.avi'', ''.mov''}"
    by (simp add: eval_defs)
  have b: "lower (suffix_py ''old.mkv'') \<in> set video_extensions
      \<and> suffix_py ''old.mkv'' \<notin> {''.mp4'', ''.avi'', ''.mov''}"
    by (simp add: eval_defs)
  from status_processed_lowercase_globs [where s = ex_store and t = ex_tagger, OF h1 h2] a b
  have "''old.MP4'' \<notin> set (processed_files ex_tagger ex_store)
      \<and> ''old.mkv'' \<notin> set (processed_files ex_tagger ex_store)"
    by blast
  with h1 h2 show ?thesis by simp
qed

text \<open>
  C3, as the code has it: the status is a pure read, the store after it is the store
  before it. A Processed or Output directory that is not there is reported as empty. An
  Input directory that is not there makes the status fail with FileNotFoundError, raised by
  \<open>iterdir\<close> in \<open>get_video_files\<close>.
\<close>

theorem show_directory_status_reads_only:
  "snd (show_directory_status t s) = s
   \<and> (s (input_dir t) = None \<longrightarrow> fst (show_directory_status t s) = Inl FileNotFoundError)
   \<and> (s (input_dir t) \<noteq> None \<longrightarrow>
        (\<exists>r. fst (show_directory_status t s) = Inr r
          \<and> (s (processed_dir t) = None \<longrightarrow>
                processed_count r = 0 \<and> processed_shown r = [] \<and> processed_more r = None)
          \<and> (s (output_dir t) = None \<longrightarrow>
                output_count r = 0 \<and> output_shown r = [] \<and> output_more r = None)))"
proof -
  have 1: "snd (show_directory_status t s) = s"
    by (simp add: show_directory_status_def split: sum.splits)
  have 2: "s (input_dir t) = None \<longrightarrow> fst (show_directory_status t s) = Inl FileNotFoundError"
    by (simp add: show_directory_status_def get_video_files_def)
  have 3: "s (input_dir t) \<noteq> None \<longrightarrow>
        (\<exists>r. fst (show_directory_status t s) = Inr r
          \<and> (s (processed_dir t) = None \<longrightarrow>
                processed_count r = 0 \<and> processed_shown r = [] \<and> processed_more r = None)
          \<and> (s (output_dir t) = None \<longrightarrow>
                output_count r = 0 \<and> output_shown r = [] \<and> output_more r = None))"
    by (auto simp: show_directory_status_def get_video_files_def processed_files_def
        output_files_def glob_def more_def)
  from 1 2 3 show ?thesis by (intro conjI)
qed

theorem show_directory_status_reads_only_witness:
  "only_input_store (input_dir ex_tagger) \<noteq> None
   \<and> only_input_store (processed_dir ex_tagger) = None
   \<and> only_input_store (output_dir ex_tagger) = None
   \<and> show_directory_status ex_tagger only_input_store =
       (Inr \<lparr>input_videos = [''a.mp4''], processed_count = 0, processed_shown = [],
             processed_more = None, output_count = 0, output_shown = [],
             output_more = None\<rparr>, only_input_store)
   \<and> no_input_store (input_dir ex_tagger) = None
   \<and> fst (show_directory_status ex_tagger no_input_store) = Inl FileNotFoundError"
proof -
  have a: "only_input_store (input_dir ex_tagger) \<noteq> None"
    "only_input_store (processed_dir ex_tagger) = None"
    "only_input_store (output_dir ex_tagger) = None"
    "no_input_store (input_dir ex_tagger) = None"
    by (simp_all add: only_input_store_def no_input_store_def ex_tagger_def)
  have b: "show_directory_status ex_tagger only_input_store =
       (Inr \<lparr>input_videos = [''a.mp4''], processed_count = 0, processed_shown = [],
             processed_more = None, output_count = 0, output_shown = [],
             output_more = None\<rparr>, only_input_store)"
    by (simp add: eval_defs)
  from show_directory_status_reads_only [of ex_tagger no_input_store] a(4)
  have c: "fst (show_directory_status ex_tagger no_input_store) = Inl FileNotFoundError"
    by blast
  from a b c show ?thesis by simp
qed

text \<open>
  The claim as written fails where the Input directory is missing: the status raises
  instead of reporting an empty directory.
\<close>

theorem show_directory_status_missing_input_counterexample:
  "no_input_store (input_dir ex_tagger) = None
   \<and> fst (show_directory_status ex_tagger no_input_store) = Inl FileNotFoundError"
  by (simp add: eval_defs)

section \<open>What a run prints\<close>

lemma attempts_append [simp]: "attempts (xs @ ys) = attempts xs @ attempts ys"
  by (induction xs rule: attempts.induct) simp_all

lemma error_reports_append [simp]:
  "error_reports (xs @ ys) = error_reports xs @ error_reports ys"
  by (induction xs rule: error_reports.induct) simp_all

section \<open>A run without a usable metadata file\<close>

lemma process_single_video_no_metadata:
  assumes "metadata_at e mf = Missing \<or> metadata_at e mf = Unparsable"
  shows "\<exists>ev. process_single_video t e mf v w = (False, say ev (say (Processing v) w))
    \<and> error_reports [ev] = [ev] \<and> attempts [ev] = []"
  using assms
  by (auto simp: process_single_video_def attempt_def Let_def split: sum.splits)

lemma loop_body_no_metadata:
  assumes "metadata_at e mf = Missing \<or> metadata_at e mf = Unparsable"
  shows "\<exists>w'. loop_body t e mf v r =
      \<lparr>world_of = w', results = AList.update v False (results r),
       successful = successful r, failed = failed r + 1\<rparr>
    \<and> fs w' = fs (world_of r)
    \<and> attempts (out w') = attempts (out (world_of r)) @ [v]
    \<and> length (error_reports (out w')) = length (error_reports (out (world_of r))) + 1"
proof -
  from process_single_video_no_metadata [OF assms, of t v "world_of r"]
  obtain ev where ev: "process_single_video t e mf v (world_of r)
      = (False, say ev (say (Processing v) (world_of r)))" "error_reports [ev] = [ev]"
      "attempts [ev] = []"
    by blast
  then show ?thesis by (simp add: loop_body_def)
qed

lemma process_loop_no_metadata:
  assumes "metadata_at e mf = Missing \<or> metadata_at e mf = Unparsable"
  shows "\<exists>w'. process_loop t e mf vs r =
      \<lparr>world_of = w', results = fold (\<lambda>v. AList.update v False) vs (results r),
       successful = successful r, failed = failed r + length vs\<rparr>
    \<and> fs w' = fs (world_of r)
    \<and> attempts (out w') = attempts (out (world_of r)) @ vs
    \<and> length (error_reports (out w')) = length (error_reports (out (world_of r))) + length vs"
proof (induction vs arbitrary: r)
  case Nil
  show ?case by (rule exI [of _ "world_of r"]) simp
next
  case (Cons v vs)
  from loop_body_no_metadata [OF assms, of t v r]
  obtain w1 where w1: "loop_body t e mf v r =
      \<lparr>world_of = w1, results = AList.update v False (results r),
       successful = successful r, failed = failed r + 1\<rparr>"
    "fs w1 = fs (world_of r)"
    "attempts (out w1) = attempts (out (world_of r)) @ [v]"
    "length (error_reports (out w1)) = length (error_reports (out (world_of r))) + 1"
    by blast
  from Cons.IH [of "loop_body t e mf v r"] w1 show ?case by auto
qed

lemma set_update_False:
  "\<forall>p\<in>set al. \<not> snd p \<Longrightarrow> set (AList.update k False al) = insert (k, False) (set al)"
  by (induction al) auto

lemma set_fold_update_False:
  "\<forall>p\<in>set al. \<not> snd p \<Longrightarrow>
   set (fold (\<lambda>v. AList.update v False) vs al) = set al \<union> (\<lambda>v. (v, False)) ` set vs"
proof (induction vs arbitrary: al)
  case Nil
  show ?case by simp
next
  case (Cons v vs)
  have "\<forall>p\<in>set (AList.update v False al). \<not> snd p"
    using Cons.prems by (simp add: set_update_False)
  from Cons.IH [OF this] Cons.prems show ?case
    by (simp add: set_update_False)
qed

text \<open>
  C1, as the code has it: with a metadata file that is missing or is not JSON the run
  does not raise. It starts on every discovered file, records each as failed, prints one
  error report per file, and leaves every directory as it was.
\<close>

theorem process_all_videos_no_metadata:
  assumes "metadata_at e mf = Missing \<or> metadata_at e mf = Unparsable"
    and "get_video_files t (fs w) = Inr vs"
  shows "\<exists>res w'. process_all_videos t e mf w = (Inr res, w')
    \<and> set res = (\<lambda>v. (v, False)) ` set vs
    \<and> fs w' = fs w
    \<and> attempts (out w') = attempts (out w) @ vs
    \<and> length (error_reports (out w')) = length (error_reports (out w)) + length vs"
proof (cases "vs = []")
  case True
  with assms(2) show ?thesis by (simp add: process_all_videos_def)
next
  case False
  let ?r0 = "\<lparr>world_of = say (Found vs) w, results = [], successful = 0, failed = 0\<rparr>"
  from process_loop_no_metadata [OF assms(1), of t vs ?r0]
  obtain w1 where w1: "process_loop t e mf vs ?r0 =
      \<lparr>world_of = w1, results = fold (\<lambda>v. AList.update v False) vs [],
       successful = 0, failed = length vs\<rparr>"
    "fs w1 = fs w" "attempts (out w1) = attempts (out w) @ vs"
    "length (error_reports (out w1)) = length (error_reports (out w)) + length vs"
    by auto
  have res: "set (fold (\<lambda>v. AList.update v False) vs []) = (\<lambda>v. (v, False)) ` set vs"
    using set_fold_update_False [of "[]" vs] by simp
  from False have "0 < length vs" by simp
  with assms(2) False w1 res show ?thesis
    by (simp add: process_all_videos_def py_truediv_def Let_def)
qed

theorem process_all_videos_no_metadata_witness:
  "metadata_at ex_env ''nowhere.json'' = Missing
   \<and> get_video_files ex_tagger (fs ex_world) = Inr [''a.mp4'', ''b.mov'']
   \<and> fst (process_all_videos ex_tagger ex_env ''nowhere.json'' ex_world)
       = Inr [(''a.mp4'', False), (''b.mov'', False)]
   \<and> fs (snd (process_all_videos ex_tagger ex_env ''nowhere.json'' ex_world)) = fs ex_world
   \<and> length (error_reports (out (snd (process_all_videos ex_tagger ex_env ''nowhere.json'' ex_world))))
       = 2"
proof -
  have h1: "metadata_at ex_env ''nowhere.json'' = Missing
      \<or> metadata_at ex_env ''nowhere.json'' = Unparsable"
    by (simp add: ex_env_def)
  have h2: "get_video_files ex_tagger (fs ex_world) = Inr [''a.mp4'', ''b.mov'']"
    by (simp add: eval_defs)
  have r: "fst (process_all_videos ex_tagger ex_env ''nowhere.json'' ex_world)
       = Inr [(''a.mp4'', False), (''b.mov'', False)]"
    by (simp add: eval_defs)
  have o: "error_reports (out ex_world) = []"
    by (simp add: ex_world_def)
  have m: "metadata_at ex_env ''nowhere.json'' = Missing"
    by (simp add: ex_env_def)
  from process_all_videos_no_metadata [OF h1 h2]
  obtain res w' where w': "process_all_videos ex_tagger ex_env ''nowhere.json'' ex_world = (Inr res, w')"
    "fs w' = fs ex_world"
    "length (error_reports (out w')) = length (error_reports (out ex_world)) + length [''a.mp4'', ''b.mov'']"
    by blast
  from w'(1) have s: "snd (process_all_videos ex_tagger ex_env ''nowhere.json'' ex_world) = w'"
    by simp
  have 1: "fs (snd (process_all_videos ex_tagger ex_env ''nowhere.json'' ex_world)) = fs ex_world"
    unfolding s by (rule w'(2))
  have 2: "length (error_reports (out (snd (process_all_videos ex_tagger ex_env ''nowhere.json'' ex_world))))
       = 2"
    unfolding s using w'(3) o by simp
  from m h2 r 1 2 show ?thesis by (intro conjI)
qed

text \<open>
  The claim as written fails on a run with two videos and no metadata file: the run
  returns a mapping with one failed outcome per video and reports the error twice.
\<close>

theorem process_all_videos_no_metadata_counterexample:
  "metadata_at ex_env ''nowhere.json'' = Missing
   \<and> process_all_videos ex_tagger ex_env ''nowhere.json'' ex_world =
       (Inr [(''a.mp4'', False), (''b.mov'', False)],
        \<lparr>fs = ex_store,
         out = [Found [''a.mp4'', ''b.mov''],
                Processing ''a.mp4'', MetadataNotFound ''nowhere.json'',
                Processing ''b.mov'', MetadataNotFound ''nowhere.json'',
                SummaryCounts 2 0 2, SuccessRate 0, FailedVideos [''a.mp4'', ''b.mov'']]\<rparr>)"
  by (simp add: eval_defs)

section \<open>One video\<close>

lemma stem_suffix_py: "stem n @ suffix_py n = n"
  by (simp add: stem_def suffix_py_def split: option.splits)

lemma length_output_filename: "length (output_filename v) = length v + 7"
proof -
  have "length (stem v @ suffix_py v) = length v"
    by (simp only: stem_suffix_py)
  then show ?thesis by (simp add: output_filename_def)
qed

lemma output_filename_neq [simp]: "output_filename v \<noteq> v" "v \<noteq> output_filename v"
  using length_output_filename [of v] by auto

text \<open>What a move that went through has done, and what a move that raised has left.\<close>

lemma shutil_move_InrD:
  assumes "shutil_move e s sdir v ddir = Inr s'" and "sdir \<noteq> ddir"
  shows "\<exists>sd k dd. s sdir = Some sd \<and> map_of sd v = Some k \<and> s ddir = Some dd
    \<and> \<not> blocked dd v
    \<and> s' = s(sdir \<mapsto> AList.delete v sd,
             ddir \<mapsto> AList.update v
               (case map_of dd v of Some (Directory cs) \<Rightarrow> Directory (v # cs) | _ \<Rightarrow> k) dd)"
  using assms
  by (auto simp: shutil_move_def rename_or_copy_def upd_dir_def blocked_def
      split: option.splits if_splits kind.splits fallback.splits)

lemma shutil_move_Inr:
  assumes "s sdir = Some sd" "map_of sd v = Some k" "s ddir = Some dd"
    "\<not> move_denied e v" "\<not> blocked dd v" "sdir \<noteq> ddir"
  shows "shutil_move e s sdir v ddir =
    Inr (s(sdir \<mapsto> AList.delete v sd,
           ddir \<mapsto> AList.update v
             (case map_of dd v of Some (Directory cs) \<Rightarrow> Directory (v # cs) | _ \<Rightarrow> k) dd))"
  using assms
  by (auto simp: shutil_move_def rename_or_copy_def upd_dir_def blocked_def
      split: option.splits if_splits kind.splits)

lemma shutil_move_InlD:
  assumes "shutil_move e s sdir v ddir = Inl (x, s')"
  shows "s' = s
    \<or> (sdir \<noteq> ddir \<and> move_denied e v \<and> fallback e v = CopyLeftBehind
        \<and> (\<exists>dd k. s ddir = Some dd \<and> s' = s(ddir \<mapsto> AList.update v k dd)))"
  using assms
  by (auto simp: shutil_move_def rename_or_copy_def upd_dir_def
      split: option.splits if_splits kind.splits fallback.splits)

text \<open>How far the tagging of one video gets, and the store it leaves.\<close>

lemma write_metadata_cases:
  "write_metadata e w v md odir oname =
     (if apply_tags e v = Crashed then (Inl TaggerError, w)
      else if apply_tags e v = Tagged \<and> (\<exists>od. fs w odir = Some od \<and> \<not> is_dir_at od oname)
      then (Inr True, w\<lparr>fs := (fs w)(odir \<mapsto> AList.update oname RegularFile (the (fs w odir)))\<rparr>)
      else (Inr False, w))"
  by (auto simp: write_metadata_def is_dir_at_def split: tag_result.splits option.splits kind.splits)

lemma process_single_video_TrueD:
  assumes "process_single_video t e mf v w = (True, w')"
  shows "\<exists>tpl od. metadata_at e mf = Template tpl \<and> apply_tags e v = Tagged
    \<and> fs w (output_dir t) = Some od \<and> \<not> is_dir_at od (output_filename v)
    \<and> shutil_move e ((fs w)(output_dir t \<mapsto> AList.update (output_filename v) RegularFile od))
          (input_dir t) v (processed_dir t) = Inr (fs w')
    \<and> attempts (out w') = attempts (out w) @ [v]
    \<and> OriginalMovedTo (processed_dir t) v \<in> set (out w')"
  using assms
  by (auto simp: process_single_video_def attempt_def write_metadata_cases Let_def
      output_filename_def
      split: sum.splits metadata_file.splits if_splits prod.splits)

lemma process_single_video_FalseD:
  assumes "process_single_video t e mf v w = (False, w')"
  shows "attempts (out w') = attempts (out w) @ [v]
    \<and> (fs w' = fs w
      \<or> (\<exists>tpl od x s'. metadata_at e mf = Template tpl \<and> apply_tags e v = Tagged
          \<and> fs w (output_dir t) = Some od \<and> \<not> is_dir_at od (output_filename v)
          \<and> shutil_move e ((fs w)(output_dir t \<mapsto> AList.update (output_filename v) RegularFile od))
                (input_dir t) v (processed_dir t) = Inl (x, s')
          \<and> fs w' = s'))"
  using assms
  by (auto simp: process_single_video_def attempt_def write_metadata_cases Let_def
      output_filename_def
      split: sum.splits metadata_file.splits if_splits prod.splits)

lemma process_single_video_tagged:
  assumes "fs w (input_dir t) = Some d" "map_of d v = Some k"
    "metadata_at e mf = Template tpl" "apply_tags e v = Tagged"
    "fs w (output_dir t) = Some od" "\<not> is_dir_at od (output_filename v)"
  shows "\<exists>w'. process_single_video t e mf v w =
      (case shutil_move e ((fs w)(output_dir t \<mapsto> AList.update (output_filename v) RegularFile od))
              (input_dir t) v (processed_dir t) of
         Inl xs \<Rightarrow> False | Inr s2 \<Rightarrow> True, w')
    \<and> fs w' =
      (case shutil_move e ((fs w)(output_dir t \<mapsto> AList.update (output_filename v) RegularFile od))
              (input_dir t) v (processed_dir t) of
         Inl xs \<Rightarrow> snd xs
       | Inr s2 \<Rightarrow> s2)
    \<and> attempts (out w') = attempts (out w) @ [v]"
  using assms
  by (auto simp: process_single_video_def attempt_def write_metadata_cases Let_def
      output_filename_def new_tagger_def
      split: sum.splits prod.splits)

text \<open>
  Where Processed has no directory of the video's name, a video that is processed
  successfully is gone from Input, is a regular file of Processed under its own name,
  and has its artifact in Output.
\<close>

lemma relocated_unless_directory:
  assumes "fst (process_single_video t e mf v (world_of r))"
    and "input_dir t \<noteq> processed_dir t"
    and "fs (world_of r) (input_dir t) = Some d" and "map_of d v = Some RegularFile"
    and "fs (world_of r) (processed_dir t) = Some pd" and "\<not> is_dir_at pd v"
  shows "(\<exists>d'. fs (world_of (loop_body t e mf v r)) (input_dir t) = Some d' \<and> map_of d' v = None)
    \<and> (\<exists>pd'. fs (world_of (loop_body t e mf v r)) (processed_dir t) = Some pd'
          \<and> map_of pd' v = Some RegularFile)
    \<and> (\<exists>od'. fs (world_of (loop_body t e mf v r)) (output_dir t) = Some od'
          \<and> map_of od' (stem v @ ''_tagged'' @ suffix_py v) = Some RegularFile)
    \<and> map_of (results (loop_body t e mf v r)) v = Some True
    \<and> successful (loop_body t e mf v r) = successful r + 1
    \<and> failed (loop_body t e mf v r) = failed r"
proof -
  obtain w' where w': "process_single_video t e mf v (world_of r) = (True, w')"
    using assms(1) by (cases "process_single_video t e mf v (world_of r)") simp
  then have body: "loop_body t e mf v r =
      \<lparr>world_of = w', results = AList.update v True (results r),
       successful = successful r + 1, failed = failed r\<rparr>"
    by (simp add: loop_body_def)
  from process_single_video_TrueD [OF w'] obtain od where
    od: "fs (world_of r) (output_dir t) = Some od"
    and mv: "shutil_move e ((fs (world_of r))(output_dir t \<mapsto>
               AList.update (output_filename v) RegularFile od))
          (input_dir t) v (processed_dir t) = Inr (fs w')"
    by blast
  let ?s1 = "(fs (world_of r))(output_dir t \<mapsto> AList.update (output_filename v) RegularFile od)"
  from shutil_move_InrD [OF mv assms(2)] obtain sd k dd where
    sd: "?s1 (input_dir t) = Some sd" and k: "map_of sd v = Some k"
    and dd: "?s1 (processed_dir t) = Some dd"
    and s': "fs w' = ?s1(input_dir t \<mapsto> AList.delete v sd,
             processed_dir t \<mapsto> AList.update v
               (case map_of dd v of Some (Directory cs) \<Rightarrow> Directory (v # cs) | _ \<Rightarrow> k) dd)"
    by blast
  have "map_of sd v = map_of d v"
    using sd od assms(3) by (auto simp: update_conv' split: if_splits)
  with k assms(4) have kR: "k = RegularFile" by simp
  have "map_of dd v = map_of pd v"
    using dd od assms(5) by (auto simp: update_conv' split: if_splits)
  with assms(6) have nd: "\<not> is_dir_at dd v" by (simp add: is_dir_at_def)
  have 1: "\<exists>d'. fs w' (input_dir t) = Some d' \<and> map_of d' v = None"
    using s' assms(2) by (simp add: delete_conv')
  have 2: "\<exists>pd'. fs w' (processed_dir t) = Some pd' \<and> map_of pd' v = Some RegularFile"
    using s' kR nd by (auto simp: update_conv' is_dir_at_def split: option.splits kind.splits)
  have 3: "\<exists>od'. fs w' (output_dir t) = Some od'
          \<and> map_of od' (output_filename v) = Some RegularFile"
    using s' sd dd by (auto simp: update_conv' delete_conv' split: if_splits)
  from 1 2 3 show ?thesis
    unfolding body by (simp add: output_filename_def update_conv')
qed

text \<open>
  C5: the code on a Processed directory that already has a directory of the video's
  name. The video \<open>a.mp4\<close> is processed successfully and the run prints that the original
  was moved to \<open>processed/a.mp4\<close>; Input no longer has it and Output has the artifact;
  but \<open>processed/a.mp4\<close> is still the directory, and the original is inside it.
\<close>

theorem successful_item_into_directory:
  "fs taken_world ''processed'' = Some [(''a.mp4'', Directory [])]
   \<and> fst (process_single_video ex_tagger ex_env ''m.json'' ''a.mp4'' taken_world)
   \<and> OriginalMovedTo ''processed'' ''a.mp4''
        \<in> set (out (snd (process_single_video ex_tagger ex_env ''m.json'' ''a.mp4'' taken_world)))
   \<and> fs (snd (process_single_video ex_tagger ex_env ''m.json'' ''a.mp4'' taken_world)) ''input''
        = Some []
   \<and> fs (snd (process_single_video ex_tagger ex_env ''m.json'' ''a.mp4'' taken_world)) ''processed''
        = Some [(''a.mp4'', Directory [''a.mp4''])]
   \<and> fs (snd (process_single_video ex_tagger ex_env ''m.json'' ''a.mp4'' taken_world)) ''output''
        = Some [(''a_tagged.mp4'', RegularFile)]"
  by (simp add: eval_defs)

lemma loop_body_False:
  assumes "process_single_video t e mf v (world_of r) = (False, w')"
  shows "loop_body t e mf v r =
      \<lparr>world_of = w', results = AList.update v False (results r),
       successful = successful r, failed = failed r + 1\<rparr>"
  using assms by (simp add: loop_body_def)

text \<open>
  C6: when the processing of a video fails, the loop records it as failed, and the entry
  of its name in Input is what it was before. The store is then unchanged, or has the
  tagged artifact added in Output, or has the artifact and a copy of the original in
  Processed, left there by a move that failed half-way; nothing is cleaned up. Whenever
  the tagging had written the artifact, so that it is the move of the original that
  failed, the artifact is in Output afterwards.
\<close>

theorem failed_item_left_in_place:
  assumes "\<not> fst (process_single_video t e mf v (world_of r))"
  shows "map_of (results (loop_body t e mf v r)) v = Some False
    \<and> failed (loop_body t e mf v r) = failed r + 1
    \<and> successful (loop_body t e mf v r) = successful r
    \<and> (\<forall>d. fs (world_of r) (input_dir t) = Some d \<longrightarrow>
          (\<exists>d'. fs (world_of (loop_body t e mf v r)) (input_dir t) = Some d'
             \<and> map_of d' v = map_of d v))
    \<and> (fs (world_of (loop_body t e mf v r)) = fs (world_of r)
        \<or> (\<exists>od. fs (world_of r) (output_dir t) = Some od
             \<and> (fs (world_of (loop_body t e mf v r)) =
                   (fs (world_of r))(output_dir t \<mapsto>
                      AList.update (stem v @ ''_tagged'' @ suffix_py v) RegularFile od)
                 \<or> (input_dir t \<noteq> processed_dir t
                     \<and> (\<exists>pd k. ((fs (world_of r))(output_dir t \<mapsto>
                            AList.update (stem v @ ''_tagged'' @ suffix_py v) RegularFile od))
                              (processed_dir t) = Some pd
                          \<and> fs (world_of (loop_body t e mf v r)) =
                              (fs (world_of r))(output_dir t \<mapsto>
                                 AList.update (stem v @ ''_tagged'' @ suffix_py v) RegularFile od,
                               processed_dir t \<mapsto> AList.update v k pd))))))
    \<and> (\<forall>tpl od d k. metadata_at e mf = Template tpl \<and> apply_tags e v = Tagged
            \<and> fs (world_of r) (output_dir t) = Some od
            \<and> \<not> is_dir_at od (stem v @ ''_tagged'' @ suffix_py v)
            \<and> fs (world_of r) (input_dir t) = Some d \<and> map_of d v = Some k \<longrightarrow>
          (\<exists>od'. fs (world_of (loop_body t e mf v r)) (output_dir t) = Some od'
             \<and> map_of od' (stem v @ ''_tagged'' @ suffix_py v) = Some RegularFile))"
proof -
  obtain w' where w': "process_single_video t e mf v (world_of r) = (False, w')"
    using assms by (cases "process_single_video t e mf v (world_of r)") simp
  note body = loop_body_False [OF w']
  let ?s = "fs (world_of r)"
  have frame: "fs w' = ?s
      \<or> (\<exists>od. ?s (output_dir t) = Some od
           \<and> (fs w' = ?s(output_dir t \<mapsto> AList.update (output_filename v) RegularFile od)
               \<or> (input_dir t \<noteq> processed_dir t
                   \<and> (\<exists>pd k. (?s(output_dir t \<mapsto> AList.update (output_filename v) RegularFile od))
                              (processed_dir t) = Some pd
                        \<and> fs w' = ?s(output_dir t \<mapsto>
                               AList.update (output_filename v) RegularFile od,
                             processed_dir t \<mapsto> AList.update v k pd)))))"
  proof (cases "fs w' = ?s")
    case True
    then show ?thesis by simp
  next
    case False
    with process_single_video_FalseD [OF w'] obtain od x s' where
      od: "?s (output_dir t) = Some od"
      and mv: "shutil_move e (?s(output_dir t \<mapsto> AList.update (output_filename v) RegularFile od))
                (input_dir t) v (processed_dir t) = Inl (x, s')"
      and s': "fs w' = s'"
      by blast
    from shutil_move_InlD [OF mv] od s' show ?thesis by blast
  qed
  have 1: "map_of (results (loop_body t e mf v r)) v = Some False"
    unfolding body by (simp add: update_conv')
  have 4: "\<forall>d. ?s (input_dir t) = Some d \<longrightarrow>
          (\<exists>d'. fs w' (input_dir t) = Some d' \<and> map_of d' v = map_of d v)"
    using frame by (auto simp: update_conv')
  have 6: "\<exists>od'. fs w' (output_dir t) = Some od'
             \<and> map_of od' (output_filename v) = Some RegularFile"
    if c: "metadata_at e mf = Template tpl" "apply_tags e v = Tagged"
      "?s (output_dir t) = Some od" "\<not> is_dir_at od (output_filename v)"
      "?s (input_dir t) = Some d" "map_of d v = Some k" for tpl od d k
  proof -
    let ?s1 = "?s(output_dir t \<mapsto> AList.update (output_filename v) RegularFile od)"
    from process_single_video_tagged [OF c(5,6,1,2,3,4)] w'
    have a: "fs w' = (case shutil_move e ?s1 (input_dir t) v (processed_dir t) of
         Inl xs \<Rightarrow> snd xs | Inr s2 \<Rightarrow> s2)"
      and b: "\<not> (case shutil_move e ?s1 (input_dir t) v (processed_dir t) of
         Inl xs \<Rightarrow> False | Inr s2 \<Rightarrow> True)"
      by auto
    from b obtain x s' where mv: "shutil_move e ?s1 (input_dir t) v (processed_dir t) = Inl (x, s')"
      by (cases "shutil_move e ?s1 (input_dir t) v (processed_dir t)") auto
    with a have s': "fs w' = s'" by simp
    from shutil_move_InlD [OF mv] s' show ?thesis
      by (auto simp: update_conv')
  qed
  from 1 4 frame 6 show ?thesis
    unfolding body by (simp add: output_filename_def)
qed

theorem failed_item_left_in_place_witness:
  "\<not> fst (process_single_video ex_tagger ex_env ''m.json'' ''c.avi'' (world_of denied_progress))
   \<and> metadata_at ex_env ''m.json'' = Template [(''artist'', ''X'')]
   \<and> apply_tags ex_env ''c.avi'' = Tagged
   \<and> move_denied ex_env ''c.avi'' \<and> fallback ex_env ''c.avi'' = CopyLeftBehind
   \<and> fs (world_of denied_progress) (output_dir ex_tagger) = Some []
   \<and> \<not> is_dir_at [] (stem ''c.avi'' @ ''_tagged'' @ suffix_py ''c.avi'')
   \<and> fs (world_of denied_progress) (input_dir ex_tagger) = Some [(''c.avi'', RegularFile)]
   \<and> map_of [(''c.avi'', RegularFile)] ''c.avi'' = Some RegularFile
   \<and> map_of (results (loop_body ex_tagger ex_env ''m.json'' ''c.avi'' denied_progress)) ''c.avi''
       = Some False
   \<and> fs (world_of (loop_body ex_tagger ex_env ''m.json'' ''c.avi'' denied_progress)) ''input''
       = Some [(''c.avi'', RegularFile)]
   \<and> fs (world_of (loop_body ex_tagger ex_env ''m.json'' ''c.avi'' denied_progress)) ''processed''
       = Some [(''c.avi'', RegularFile)]
   \<and> fs (world_of (loop_body ex_tagger ex_env ''m.json'' ''c.avi'' denied_progress)) ''output''
       = Some [(''c_tagged.avi'', RegularFile)]"
proof -
  have h: "\<not> fst (process_single_video ex_tagger ex_env ''m.json'' ''c.avi''
      (world_of denied_progress))"
    by (simp add: eval_defs)
  have c: "metadata_at ex_env ''m.json'' = Template [(''artist'', ''X'')]"
    "apply_tags ex_env ''c.avi'' = Tagged"
    "move_denied ex_env ''c.avi''" "fallback ex_env ''c.avi'' = CopyLeftBehind"
    "fs (world_of denied_progress) (output_dir ex_tagger) = Some []"
    "\<not> is_dir_at [] (stem ''c.avi'' @ ''_tagged'' @ suffix_py ''c.avi'')"
    "fs (world_of denied_progress) (input_dir ex_tagger) = Some [(''c.avi'', RegularFile)]"
    "map_of [(''c.avi'', RegularFile)] ''c.avi'' = Some RegularFile"
    by (simp_all add: eval_defs)
  have s: "fs (world_of (loop_body ex_tagger ex_env ''m.json'' ''c.avi'' denied_progress)) ''input''
       = Some [(''c.avi'', RegularFile)]"
    "fs (world_of (loop_body ex_tagger ex_env ''m.json'' ''c.avi'' denied_progress)) ''processed''
       = Some [(''c.avi'', RegularFile)]"
    "fs (world_of (loop_body ex_tagger ex_env ''m.json'' ''c.avi'' denied_progress)) ''output''
       = Some [(''c_tagged.avi'', RegularFile)]"
    by (simp_all add: eval_defs)
  from failed_item_left_in_place [OF h]
  have r: "map_of (results (loop_body ex_tagger ex_env ''m.json'' ''c.avi'' denied_progress))
      ''c.avi'' = Some False"
    by blast
  from h c r s show ?thesis by (intro conjI)
qed

section \<open>The loop over the discovered files\<close>

lemma update_fresh: "k \<notin> fst ` set al \<Longrightarrow> AList.update k v al = al @ [(k, v)]"
  by (induction al) auto

lemma blocked_cong: "map_of pd' u = map_of pd u \<Longrightarrow> blocked pd' u = blocked pd u"
  by (simp add: blocked_def)

lemma not_is_dir_at_update:
  "map_of od' n = map_of od n \<or> map_of od' n = Some RegularFile \<Longrightarrow>
   \<not> is_dir_at od n \<Longrightarrow> \<not> is_dir_at od' n"
  by (auto simp: is_dir_at_def)

lemma process_single_video_untagged:
  assumes "fs w (input_dir t) = Some d" "map_of d v = Some k"
    "metadata_at e mf = Template tpl" "apply_tags e v \<noteq> Tagged"
  shows "\<exists>w'. process_single_video t e mf v w = (False, w') \<and> fs w' = fs w
    \<and> attempts (out w') = attempts (out w) @ [v]"
  using assms
  by (cases "apply_tags e v")
    (auto simp: process_single_video_def attempt_def write_metadata_def Let_def new_tagger_def)

text \<open>
  One step on a store that lets the video through: the outcome is the verdict of the
  tagging tool, and what the later videos need of the three directories is kept.
\<close>

lemma process_single_video_step:
  assumes dirs: "input_dir t \<noteq> processed_dir t" "input_dir t \<noteq> output_dir t"
      "processed_dir t \<noteq> output_dir t"
    and store: "fs w (input_dir t) = Some d" "fs w (processed_dir t) = Some pd"
      "fs w (output_dir t) = Some od"
    and v: "map_of d v = Some k"
    and md: "metadata_at e mf = Template tpl"
    and ok: "apply_tags e v = Tagged \<longrightarrow>
      \<not> move_denied e v \<and> \<not> blocked pd v \<and> \<not> is_dir_at od (output_filename v)"
  shows "\<exists>w' d' pd' od'. process_single_video t e mf v w = (apply_tags e v = Tagged, w')
    \<and> attempts (out w') = attempts (out w) @ [v]
    \<and> fs w' (input_dir t) = Some d' \<and> fs w' (processed_dir t) = Some pd'
    \<and> fs w' (output_dir t) = Some od'
    \<and> (\<forall>u. u \<noteq> v \<longrightarrow> map_of d' u = map_of d u \<and> map_of pd' u = map_of pd u)
    \<and> (\<forall>n. map_of od' n = map_of od n \<or> map_of od' n = Some RegularFile)"
proof (cases "apply_tags e v = Tagged")
  case False
  from process_single_video_untagged [OF store(1) v md False]
  obtain w' where "process_single_video t e mf v w = (False, w')" "fs w' = fs w"
    "attempts (out w') = attempts (out w) @ [v]"
    by blast
  with False store show ?thesis by auto
next
  case True
  let ?s1 = "(fs w)(output_dir t \<mapsto> AList.update (output_filename v) RegularFile od)"
  let ?K = "case map_of pd v of Some (Directory cs) \<Rightarrow> Directory (v # cs) | _ \<Rightarrow> k"
  let ?s2 = "?s1(input_dir t \<mapsto> AList.delete v d, processed_dir t \<mapsto> AList.update v ?K pd)"
  from ok True have ok': "\<not> move_denied e v" "\<not> blocked pd v"
    "\<not> is_dir_at od (output_filename v)"
    by simp_all
  have "?s1 (input_dir t) = Some d" "?s1 (processed_dir t) = Some pd"
    using dirs store by simp_all
  from shutil_move_Inr [OF this(1) v this(2) ok'(1,2) dirs(1)]
  have mv: "shutil_move e ?s1 (input_dir t) v (processed_dir t) = Inr ?s2" .
  from process_single_video_tagged [OF store(1) v md True store(3) ok'(3)] mv
  obtain w' where w': "process_single_video t e mf v w = (True, w')" "fs w' = ?s2"
    "attempts (out w') = attempts (out w) @ [v]"
    by auto
  have a: "fs w' (input_dir t) = Some (AList.delete v d)"
    "fs w' (processed_dir t) = Some (AList.update v ?K pd)"
    "fs w' (output_dir t) = Some (AList.update (output_filename v) RegularFile od)"
    using dirs by (simp_all add: w'(2))
  have b: "\<forall>u. u \<noteq> v \<longrightarrow> map_of (AList.delete v d) u = map_of d u
      \<and> map_of (AList.update v ?K pd) u = map_of pd u"
    by (simp add: delete_conv' update_conv')
  have c: "\<forall>n. map_of (AList.update (output_filename v) RegularFile od) n = map_of od n
      \<or> map_of (AList.update (output_filename v) RegularFile od) n = Some RegularFile"
    by (simp add: update_conv')
  from w'(1,3) True a b c show ?thesis by auto
qed

lemma loop_body_step:
  assumes dirs: "input_dir t \<noteq> processed_dir t" "input_dir t \<noteq> output_dir t"
      "processed_dir t \<noteq> output_dir t"
    and store: "fs (world_of r) (input_dir t) = Some d" "fs (world_of r) (processed_dir t) = Some pd"
      "fs (world_of r) (output_dir t) = Some od"
    and v: "map_of d v = Some k"
    and md: "metadata_at e mf = Template tpl"
    and ok: "apply_tags e v = Tagged \<longrightarrow>
      \<not> move_denied e v \<and> \<not> blocked pd v \<and> \<not> is_dir_at od (output_filename v)"
    and fresh: "v \<notin> fst ` set (results r)"
  shows "\<exists>w' d' pd' od'. loop_body t e mf v r =
      \<lparr>world_of = w', results = results r @ [(v, apply_tags e v = Tagged)],
       successful = successful r + (if apply_tags e v = Tagged then 1 else 0),
       failed = failed r + (if apply_tags e v = Tagged then 0 else 1)\<rparr>
    \<and> attempts (out w') = attempts (out (world_of r)) @ [v]
    \<and> fs w' (input_dir t) = Some d' \<and> fs w' (processed_dir t) = Some pd'
    \<and> fs w' (output_dir t) = Some od'
    \<and> (\<forall>u. u \<noteq> v \<longrightarrow> map_of d' u = map_of d u \<and> map_of pd' u = map_of pd u)
    \<and> (\<forall>n. map_of od' n = map_of od n \<or> map_of od' n = Some RegularFile)"
proof -
  from process_single_video_step [OF dirs store v md ok]
  obtain w' d' pd' od' where
    1: "process_single_video t e mf v (world_of r) = (apply_tags e v = Tagged, w')"
    and 2: "attempts (out w') = attempts (out (world_of r)) @ [v]"
      "fs w' (input_dir t) = Some d'" "fs w' (processed_dir t) = Some pd'"
      "fs w' (output_dir t) = Some od'"
      "\<forall>u. u \<noteq> v \<longrightarrow> map_of d' u = map_of d u \<and> map_of pd' u = map_of pd u"
      "\<forall>n. map_of od' n = map_of od n \<or> map_of od' n = Some RegularFile"
    by blast
  have "loop_body t e mf v r =
      \<lparr>world_of = w', results = results r @ [(v, apply_tags e v = Tagged)],
       successful = successful r + (if apply_tags e v = Tagged then 1 else 0),
       failed = failed r + (if apply_tags e v = Tagged then 0 else 1)\<rparr>"
    using 1 fresh by (simp add: loop_body_def update_fresh)
  with 2 show ?thesis by blast
qed

lemma process_loop_passable:
  assumes dirs: "input_dir t \<noteq> processed_dir t" "input_dir t \<noteq> output_dir t"
      "processed_dir t \<noteq> output_dir t"
    and md: "metadata_at e mf = Template tpl"
  shows "distinct vs \<Longrightarrow>
    fs (world_of r) (input_dir t) = Some d \<Longrightarrow>
    fs (world_of r) (processed_dir t) = Some pd \<Longrightarrow>
    fs (world_of r) (output_dir t) = Some od \<Longrightarrow>
    \<forall>v\<in>set vs. map_of d v \<noteq> None \<and> v \<notin> fst ` set (results r)
      \<and> (apply_tags e v = Tagged \<longrightarrow>
            \<not> move_denied e v \<and> \<not> blocked pd v \<and> \<not> is_dir_at od (output_filename v)) \<Longrightarrow>
    \<exists>w'. process_loop t e mf vs r =
      \<lparr>world_of = w',
       results = results r @ map (\<lambda>v. (v, apply_tags e v = Tagged)) vs,
       successful = successful r + length (filter (\<lambda>v. apply_tags e v = Tagged) vs),
       failed = failed r + length (filter (\<lambda>v. apply_tags e v \<noteq> Tagged) vs)\<rparr>
    \<and> attempts (out w') = attempts (out (world_of r)) @ vs"
proof (induction vs arbitrary: r d pd od)
  case Nil
  show ?case by (rule exI [of _ "world_of r"]) simp
next
  case (Cons v vs)
  from Cons.prems(5) obtain k where k: "map_of d v = Some k" by auto
  from Cons.prems(5) have ok: "apply_tags e v = Tagged \<longrightarrow>
      \<not> move_denied e v \<and> \<not> blocked pd v \<and> \<not> is_dir_at od (output_filename v)"
    and fresh: "v \<notin> fst ` set (results r)"
    by simp_all
  let ?r1 = "loop_body t e mf v r"
  from loop_body_step [OF dirs Cons.prems(2,3,4) k md ok fresh]
  obtain w1 d1 pd1 od1 where
    r1: "?r1 = \<lparr>world_of = w1, results = results r @ [(v, apply_tags e v = Tagged)],
       successful = successful r + (if apply_tags e v = Tagged then 1 else 0),
       failed = failed r + (if apply_tags e v = Tagged then 0 else 1)\<rparr>"
    and a1: "attempts (out w1) = attempts (out (world_of r)) @ [v]"
    and s1: "fs w1 (input_dir t) = Some d1" "fs w1 (processed_dir t) = Some pd1"
      "fs w1 (output_dir t) = Some od1"
    and f1: "\<forall>u. u \<noteq> v \<longrightarrow> map_of d1 u = map_of d u \<and> map_of pd1 u = map_of pd u"
    and g1: "\<forall>n. map_of od1 n = map_of od n \<or> map_of od1 n = Some RegularFile"
    by blast
  from Cons.prems(1) have dv: "distinct vs" and nv: "v \<notin> set vs" by simp_all
  have st: "fs (world_of ?r1) (input_dir t) = Some d1"
    "fs (world_of ?r1) (processed_dir t) = Some pd1"
    "fs (world_of ?r1) (output_dir t) = Some od1"
    using s1 by (simp_all add: r1)
  have inv: "\<forall>u\<in>set vs. map_of d1 u \<noteq> None \<and> u \<notin> fst ` set (results ?r1)
      \<and> (apply_tags e u = Tagged \<longrightarrow>
            \<not> move_denied e u \<and> \<not> blocked pd1 u \<and> \<not> is_dir_at od1 (output_filename u))"
  proof
    fix u assume u: "u \<in> set vs"
    with nv have uv: "u \<noteq> v" by auto
    from u Cons.prems(5) have pu: "map_of d u \<noteq> None" "u \<notin> fst ` set (results r)"
      "apply_tags e u = Tagged \<longrightarrow>
            \<not> move_denied e u \<and> \<not> blocked pd u \<and> \<not> is_dir_at od (output_filename u)"
      by simp_all
    from f1 uv have m: "map_of d1 u = map_of d u" "map_of pd1 u = map_of pd u" by simp_all
    have b: "blocked pd1 u = blocked pd u" using m(2) by (rule blocked_cong)
    have c: "\<not> is_dir_at od (output_filename u) \<Longrightarrow> \<not> is_dir_at od1 (output_filename u)"
      using g1 not_is_dir_at_update by blast
    from pu(2) uv have fr: "u \<notin> fst ` set (results ?r1)" by (auto simp: r1)
    from pu m(1) b c fr
    show "map_of d1 u \<noteq> None \<and> u \<notin> fst ` set (results ?r1)
      \<and> (apply_tags e u = Tagged \<longrightarrow>
            \<not> move_denied e u \<and> \<not> blocked pd1 u \<and> \<not> is_dir_at od1 (output_filename u))"
      by auto
  qed
  from Cons.IH [OF dv st inv] obtain w' where
    w': "process_loop t e mf vs ?r1 =
      \<lparr>world_of = w',
       results = results ?r1 @ map (\<lambda>v. (v, apply_tags e v = Tagged)) vs,
       successful = successful ?r1 + length (filter (\<lambda>v. apply_tags e v = Tagged) vs),
       failed = failed ?r1 + length (filter (\<lambda>v. apply_tags e v \<noteq> Tagged) vs)\<rparr>"
    and a': "attempts (out w') = attempts (out (world_of ?r1)) @ vs"
    by blast
  have "process_loop t e mf (v # vs) r =
      \<lparr>world_of = w',
       results = results r @ map (\<lambda>v. (v, apply_tags e v = Tagged)) (v # vs),
       successful = successful r + length (filter (\<lambda>v. apply_tags e v = Tagged) (v # vs)),
       failed = failed r + length (filter (\<lambda>v. apply_tags e v \<noteq> Tagged) (v # vs))\<rparr>"
    using w' by (simp add: r1)
  moreover have "attempts (out w') = attempts (out (world_of r)) @ v # vs"
    using a' a1 by (simp add: r1)
  ultimately show ?case by blast
qed

lemma length_filter_eq_distinct:
  "distinct xs \<Longrightarrow> x \<in> set xs \<Longrightarrow> length (filter (\<lambda>y. y = x) xs) = 1"
  by (induction xs) (auto simp: filter_empty_conv)

text \<open>
  C2: a batch over the discovered files \<open>vs\<close> in which the tagging of one file \<open>vk\<close>
  fails and every other file goes through (the tagging tool accepts it, the operating
  system lets it move, and neither its place in Processed nor the place of its artifact
  in Output is barred by a directory) does not abort. The mapping returned has an entry
  for every file, in the order of discovery: failed for \<open>vk\<close>, successful for the
  other \<open>length vs - 1\<close>; and the run starts on every file, those after \<open>vk\<close>
  included. Input, Processed and Output are three different directories, and the names in
  Input are distinct.
\<close>

theorem process_all_videos_isolates_failure:
  assumes "input_dir t \<noteq> processed_dir t" and "input_dir t \<noteq> output_dir t"
    and "processed_dir t \<noteq> output_dir t"
    and "fs w (input_dir t) = Some d" and "distinct (map fst d)"
    and "fs w (processed_dir t) = Some pd" and "fs w (output_dir t) = Some od"
    and "get_video_files t (fs w) = Inr vs"
    and "metadata_at e mf = Template tpl"
    and "vk \<in> set vs" and "apply_tags e vk \<noteq> Tagged"
    and "\<forall>v\<in>set vs. v \<noteq> vk \<longrightarrow> apply_tags e v = Tagged \<and> \<not> move_denied e v
          \<and> \<not> blocked pd v \<and> \<not> is_dir_at od (stem v @ ''_tagged'' @ suffix_py v)"
  shows "\<exists>w'. process_all_videos t e mf w = (Inr (map (\<lambda>v. (v, v \<noteq> vk)) vs), w')
    \<and> attempts (out w') = attempts (out w) @ vs
    \<and> map_of (map (\<lambda>v. (v, v \<noteq> vk)) vs) vk = Some False
    \<and> length (filter (\<lambda>p. \<not> snd p) (map (\<lambda>v. (v, v \<noteq> vk)) vs)) = 1
    \<and> length (filter snd (map (\<lambda>v. (v, v \<noteq> vk)) vs)) = length vs - 1"
proof -
  from assms(4,8) have vs: "vs = sort (map fst (filter eligible d))"
    by (simp add: get_video_files_def)
  have dvs: "distinct vs"
    unfolding vs using assms(5) by (simp add: distinct_map_filter)
  have sub: "set vs \<subseteq> fst ` set d"
    unfolding vs by auto
  have verdict: "(apply_tags e v = Tagged) = (v \<noteq> vk)" if "v \<in> set vs" for v
    using that assms(11,12) by auto
  let ?r0 = "\<lparr>world_of = say (Found vs) w, results = [], successful = 0, failed = 0\<rparr>"
  have inv: "\<forall>v\<in>set vs. map_of d v \<noteq> None \<and> v \<notin> fst ` set (results ?r0)
      \<and> (apply_tags e v = Tagged \<longrightarrow>
            \<not> move_denied e v \<and> \<not> blocked pd v \<and> \<not> is_dir_at od (output_filename v))"
  proof
    fix v assume v: "v \<in> set vs"
    with sub have "v \<in> fst ` set d" by auto
    then have "map_of d v \<noteq> None" by (simp add: map_of_eq_None_iff)
    moreover have "apply_tags e v = Tagged \<longrightarrow>
            \<not> move_denied e v \<and> \<not> blocked pd v \<and> \<not> is_dir_at od (output_filename v)"
      using v assms(11,12) by (auto simp: output_filename_def)
    ultimately show "map_of d v \<noteq> None \<and> v \<notin> fst ` set (results ?r0)
      \<and> (apply_tags e v = Tagged \<longrightarrow>
            \<not> move_denied e v \<and> \<not> blocked pd v \<and> \<not> is_dir_at od (output_filename v))"
      by simp
  qed
  have st: "fs (world_of ?r0) (input_dir t) = Some d"
    "fs (world_of ?r0) (processed_dir t) = Some pd"
    "fs (world_of ?r0) (output_dir t) = Some od"
    using assms(4,6,7) by simp_all
  from process_loop_passable [OF assms(1,2,3,9) dvs st inv]
  obtain w1 where loop: "process_loop t e mf vs ?r0 =
      \<lparr>world_of = w1,
       results = map (\<lambda>v. (v, apply_tags e v = Tagged)) vs,
       successful = length (filter (\<lambda>v. apply_tags e v = Tagged) vs),
       failed = length (filter (\<lambda>v. apply_tags e v \<noteq> Tagged) vs)\<rparr>"
    and att: "attempts (out w1) = attempts (out w) @ vs"
    by auto
  have res: "map (\<lambda>v. (v, apply_tags e v = Tagged)) vs = map (\<lambda>v. (v, v \<noteq> vk)) vs"
    using verdict by simp
  from assms(10) have ne: "vs \<noteq> []" "0 < length vs" by auto
  have run: "\<exists>w'. process_all_videos t e mf w = (Inr (map (\<lambda>v. (v, v \<noteq> vk)) vs), w')
    \<and> attempts (out w') = attempts (out w) @ vs"
    using assms(8) ne loop att res
    by (simp add: process_all_videos_def py_truediv_def Let_def del: map_eq_conv)
  have one: "length (filter (\<lambda>v. v = vk) vs) = 1"
    using dvs assms(10) by (rule length_filter_eq_distinct)
  have "length (filter (\<lambda>v. v = vk) vs) + length (filter (\<lambda>v. \<not> v = vk) vs) = length vs"
    by (rule sum_length_filter_compl)
  with one have rest: "length (filter (\<lambda>v. v \<noteq> vk) vs) = length vs - 1" by simp
  have c1: "map_of (map (\<lambda>v. (v, v \<noteq> vk)) vs) vk = Some False"
    using assms(10) by (induction vs) auto
  have c2: "length (filter (\<lambda>p. \<not> snd p) (map (\<lambda>v. (v, v \<noteq> vk)) vs)) = 1"
    using one by (simp add: filter_map comp_def)
  have c3: "length (filter snd (map (\<lambda>v. (v, v \<noteq> vk)) vs)) = length vs - 1"
    using rest by (simp add: filter_map comp_def)
  from run c1 c2 c3 show ?thesis by blast
qed

theorem process_all_videos_isolates_failure_witness:
  "input_dir ex_tagger \<noteq> processed_dir ex_tagger
   \<and> input_dir ex_tagger \<noteq> output_dir ex_tagger
   \<and> processed_dir ex_tagger \<noteq> output_dir ex_tagger
   \<and> get_video_files ex_tagger (fs three_video_world) = Inr [''a.mp4'', ''b.mov'', ''z.mkv'']
   \<and> metadata_at ex_env ''m.json'' = Template [(''artist'', ''X'')]
   \<and> apply_tags ex_env ''b.mov'' \<noteq> Tagged
   \<and> apply_tags ex_env ''a.mp4'' = Tagged \<and> apply_tags ex_env ''z.mkv'' = Tagged
   \<and> fst (process_all_videos ex_tagger ex_env ''m.json'' three_video_world)
       = Inr [(''a.mp4'', True), (''b.mov'', False), (''z.mkv'', True)]
   \<and> attempts (out (snd (process_all_videos ex_tagger ex_env ''m.json'' three_video_world)))
       = [''a.mp4'', ''b.mov'', ''z.mkv'']"
proof -
  let ?d = "[(''z.mkv'', RegularFile), (''b.mov'', RegularFile), (''a.mp4'', RegularFile)]"
  let ?pd = "[(''a.mp4'', Directory [])]"
  let ?od = "[(''z_tagged.mkv'', RegularFile)]"
  let ?vs = "[''a.mp4'', ''b.mov'', ''z.mkv'']"
  have h1: "input_dir ex_tagger \<noteq> processed_dir ex_tagger"
    and h2: "input_dir ex_tagger \<noteq> output_dir ex_tagger"
    and h3: "processed_dir ex_tagger \<noteq> output_dir ex_tagger"
    by (simp_all add: ex_tagger_def)
  have h4: "fs three_video_world (input_dir ex_tagger) = Some ?d"
    and h6: "fs three_video_world (processed_dir ex_tagger) = Some ?pd"
    and h7: "fs three_video_world (output_dir ex_tagger) = Some ?od"
    by (simp_all add: three_video_world_def ex_tagger_def)
  have h5: "distinct (map fst ?d)" by simp
  have h8: "get_video_files ex_tagger (fs three_video_world) = Inr ?vs"
    by (simp add: eval_defs)
  have h9: "metadata_at ex_env ''m.json'' = Template [(''artist'', ''X'')]"
    by (simp add: ex_env_def)
  have h10: "''b.mov'' \<in> set ?vs" by simp
  have h11: "apply_tags ex_env ''b.mov'' \<noteq> Tagged"
    by (simp add: ex_env_def)
  have h12: "\<forall>v\<in>set ?vs. v \<noteq> ''b.mov'' \<longrightarrow> apply_tags ex_env v = Tagged
      \<and> \<not> move_denied ex_env v \<and> \<not> blocked ?pd v
      \<and> \<not> is_dir_at ?od (stem v @ ''_tagged'' @ suffix_py v)"
    by (simp add: ex_env_def blocked_def is_dir_at_def stem_def suffix_py_def)
  have t: "apply_tags ex_env ''a.mp4'' = Tagged" "apply_tags ex_env ''z.mkv'' = Tagged"
    by (simp_all add: ex_env_def)
  from process_all_videos_isolates_failure [OF h1 h2 h3 h4 h5 h6 h7 h8 h9 h10 h11 h12]
  obtain w' where w': "process_all_videos ex_tagger ex_env ''m.json'' three_video_world
      = (Inr (map (\<lambda>v. (v, v \<noteq> ''b.mov'')) ?vs), w')"
    "attempts (out w') = attempts (out three_video_world) @ ?vs"
    by blast
  have r: "fst (process_all_videos ex_tagger ex_env ''m.json'' three_video_world)
       = Inr [(''a.mp4'', True), (''b.mov'', False), (''z.mkv'', True)]"
    unfolding w'(1) by simp
  have a: "attempts (out (snd (process_all_videos ex_tagger ex_env ''m.json'' three_video_world)))
       = ?vs"
    unfolding w'(1) using w'(2) by (simp add: three_video_world_def)
  from h1 h2 h3 h8 h9 h11 t r a show ?thesis by (intro conjI)
qed

end
